theory Spec2Isabelle
  imports Main "HOL-Library.AList" "HOL-Library.Sublist"
begin

section \<open>Strings of the JavaScript run time\<close>

text \<open>
  A JavaScript string is modelled as a \<^typ>\<open>string\<close> holding its UTF-8 bytes: the ASCII
  text of the source (\<open>'ctrl'\<close>, \<open>'+'\<close>, \<open>'INPUT'\<close>) is the same literal here, and each
  glyph of \<open>formatShortcut\<close> is the three bytes of its code point. The program only
  concatenates strings, compares them, changes their case and searches for the ASCII
  text \<open>'MAC'\<close>, so the encoding is not observable.
\<close>

definition isAscii :: "char \<Rightarrow> bool" where
  "isAscii c = (of_char c < (128::nat))"

definition asciiLower :: "char \<Rightarrow> char" where
  "asciiLower c =
     (case map_of (zip ''ABCDEFGHIJKLMNOPQRSTUVWXYZ'' ''abcdefghijklmnopqrstuvwxyz'') c of
        Some l \<Rightarrow> l
      | None \<Rightarrow> c)"

definition asciiUpper :: "char \<Rightarrow> char" where
  "asciiUpper c =
     (case map_of (zip ''abcdefghijklmnopqrstuvwxyz'' ''ABCDEFGHIJKLMNOPQRSTUVWXYZ'') c of
        Some u \<Rightarrow> u
      | None \<Rightarrow> c)"

text \<open>
  The host the code runs on. \<open>String.prototype.toLowerCase\<close> and \<open>toUpperCase\<close> map the
  letters of an ASCII string one by one; on any other string they follow the Unicode
  case tables, which are not part of the repository and are taken as the parameters
  \<open>unicodeLower\<close> and \<open>unicodeUpper\<close>. \<open>platform\<close> is \<open>navigator.platform\<close>.
\<close>

record runtime =
  unicodeLower :: "string \<Rightarrow> string"
  unicodeUpper :: "string \<Rightarrow> string"
  platform :: string

definition toLowerCase :: "runtime \<Rightarrow> string \<Rightarrow> string" where
  "toLowerCase rt s = (if list_all isAscii s then map asciiLower s else unicodeLower rt s)"

definition toUpperCase :: "runtime \<Rightarrow> string \<Rightarrow> string" where
  "toUpperCase rt s = (if list_all isAscii s then map asciiUpper s else unicodeUpper rt s)"

text \<open>\<open>Array.prototype.join\<close> on an array of strings.\<close>

fun join :: "string \<Rightarrow> string list \<Rightarrow> string" where
  "join sep [] = []"
| "join sep [p] = p"
| "join sep (p # q # ps) = p @ sep @ join sep (q # ps)"

text \<open>
  \<open>String.prototype.indexOf\<close>: the position of the first occurrence of the needle, or
  \<open>-1\<close>. Positions count bytes here; the program only tests the sign.
\<close>

primrec indexOfFrom :: "nat \<Rightarrow> string \<Rightarrow> string \<Rightarrow> int" where
  "indexOfFrom i [] needle = (if needle = [] then int i else - 1)"
| "indexOfFrom i (c # cs) needle =
     (if prefix needle (c # cs) then int i else indexOfFrom (Suc i) cs needle)"

definition indexOf :: "string \<Rightarrow> string \<Rightarrow> int" where
  "indexOf s needle = indexOfFrom 0 s needle"

section \<open>The data model\<close>

text \<open>
  \<open>interface ShortcutAction\<close>. Every field is optional in the model: \<open>unregister\<close> and
  \<open>getShortcutKey\<close> take a \<open>Partial<ShortcutAction>\<close>, and the interface is erased at run
  time, so that \<open>register\<close> can be handed an object without \<open>key\<close>. A field that is
  absent (\<open>undefined\<close>) is \<open>None\<close>. The handler \<open>action\<close> is a callback the manager knows
  nothing about; it is a value of the type parameter \<open>'h\<close>, and calling it is recorded
  as the host call \<open>Action h\<close>.
\<close>

record 'h ShortcutAction =
  key :: "string option"
  ctrlKey :: "bool option"
  altKey :: "bool option"
  shiftKey :: "bool option"
  metaKey :: "bool option"
  description :: "string option"
  action :: "'h option"

text \<open>
  What \<open>handleKeyDown\<close> reads of a \<open>KeyboardEvent\<close>: the key, the four modifier flags,
  and of the target its tag name and its \<open>isContentEditable\<close> flag.
\<close>

record EventTarget =
  tagName :: string
  isContentEditable :: bool

record KeyboardEvent =
  eventKey :: string
  eventCtrlKey :: bool
  eventAltKey :: bool
  eventShiftKey :: bool
  eventMetaKey :: bool
  target :: EventTarget

text \<open>
  The listeners of the document for \<open>'keydown'\<close>: the manager's bound \<open>handleKeyDown\<close>
  (one function object, bound once in the constructor) and the listeners of other code.
\<close>

datatype listener = HandleKeyDown | OtherListener nat

text \<open>The calls the manager makes on the host, in the order it makes them.\<close>

datatype 'h call =
    AddEventListener
  | RemoveEventListener
  | PreventDefault
  | StopPropagation
  | Action 'h

datatype error = TypeError

text \<open>
  The state: the two private fields of \<open>KeyboardShortcutManager\<close>, the \<open>'keydown'\<close>
  listener list of the document, and the host calls made so far. The \<open>Map\<close> of the
  source keeps insertion order and is an association list: \<open>set\<close> is \<^const>\<open>AList.update\<close>
  (replace in place, or append), \<open>delete\<close> is \<^const>\<open>AList.delete\<close>, \<open>get\<close> is
  \<^const>\<open>map_of\<close>.
\<close>

record 'h manager =
  shortcuts :: "(string \<times> 'h ShortcutAction) list"
  isListening :: bool
  keydownListeners :: "listener list"
  calls :: "'h call list"

text \<open>
  \<open>new KeyboardShortcutManager()\<close> on a page whose document has the listeners \<open>others\<close>.
\<close>

definition newManager :: "nat list \<Rightarrow> 'h manager" where
  "newManager others =
     \<lparr>shortcuts = [], isListening = False,
      keydownListeners = map OtherListener (remdups others), calls = []\<rparr>"

text \<open>
  \<open>EventTarget.addEventListener\<close> appends the listener unless the list already holds it;
  \<open>removeEventListener\<close> removes it if it is there.
\<close>

definition addEventListener :: "listener \<Rightarrow> listener list \<Rightarrow> listener list" where
  "addEventListener l ls = (if l \<in> set ls then ls else ls @ [l])"

definition removeEventListener :: "listener \<Rightarrow> listener list \<Rightarrow> listener list" where
  "removeEventListener l ls = remove1 l ls"

section \<open>The operations of KeyboardShortcutManager\<close>

definition getShortcutKey :: "runtime \<Rightarrow> 'h ShortcutAction \<Rightarrow> string" where
  "getShortcutKey rt shortcut =
     (let parts = [];
          parts = (if ctrlKey shortcut = Some True then parts @ [''ctrl''] else parts);
          parts = (if altKey shortcut = Some True then parts @ [''alt''] else parts);
          parts = (if shiftKey shortcut = Some True then parts @ [''shift''] else parts);
          parts = (if metaKey shortcut = Some True then parts @ [''meta''] else parts);
          parts = (case key shortcut of
                     None \<Rightarrow> parts
                   | Some k \<Rightarrow> if k \<noteq> [] then parts @ [toLowerCase rt k] else parts)
      in join ''+'' parts)"

definition register :: "runtime \<Rightarrow> 'h ShortcutAction \<Rightarrow> 'h manager \<Rightarrow> 'h manager" where
  "register rt shortcut m =
     (let k = getShortcutKey rt shortcut
      in m\<lparr>shortcuts := AList.update k shortcut (shortcuts m)\<rparr>)"

definition unregister :: "runtime \<Rightarrow> 'h ShortcutAction \<Rightarrow> 'h manager \<Rightarrow> 'h manager" where
  "unregister rt shortcut m =
     (let k = getShortcutKey rt shortcut
      in m\<lparr>shortcuts := AList.delete k (shortcuts m)\<rparr>)"

definition startListening :: "'h manager \<Rightarrow> 'h manager" where
  "startListening m =
     (if \<not> isListening m
      then m\<lparr>keydownListeners := addEventListener HandleKeyDown (keydownListeners m),
             calls := calls m @ [AddEventListener],
             isListening := True\<rparr>
      else m)"

definition stopListening :: "'h manager \<Rightarrow> 'h manager" where
  "stopListening m =
     (if isListening m
      then m\<lparr>keydownListeners := removeEventListener HandleKeyDown (keydownListeners m),
             calls := calls m @ [RemoveEventListener],
             isListening := False\<rparr>
      else m)"

definition getShortcuts :: "'h manager \<Rightarrow> 'h ShortcutAction list" where
  "getShortcuts m = map snd (shortcuts m)"

text \<open>The object literal that \<open>handleKeyDown\<close> passes to \<open>getShortcutKey\<close>.\<close>

definition eventShortcut :: "KeyboardEvent \<Rightarrow> 'h ShortcutAction" where
  "eventShortcut event =
     \<lparr>key = Some (eventKey event),
      ctrlKey = Some (eventCtrlKey event),
      altKey = Some (eventAltKey event),
      shiftKey = Some (eventShiftKey event),
      metaKey = Some (eventMetaKey event),
      description = None,
      action = None\<rparr>"

text \<open>
  \<open>handleKeyDown\<close> returns the error it throws, if any, and the state it leaves. The
  only throw of its own is the \<open>TypeError\<close> of calling an \<open>action\<close> that is not there;
  what a handler does when called, an error of its own included, is outside the model.
\<close>

definition handleKeyDown ::
  "runtime \<Rightarrow> KeyboardEvent \<Rightarrow> 'h manager \<Rightarrow> error option \<times> 'h manager" where
  "handleKeyDown rt event m =
     (let tgt = target event
      in if tagName tgt = ''INPUT'' \<or> tagName tgt = ''TEXTAREA'' \<or> isContentEditable tgt
         then (None, m)
         else
           let shortcutKey = getShortcutKey rt (eventShortcut event :: 'h ShortcutAction)
           in case map_of (shortcuts m) shortcutKey of
                None \<Rightarrow> (None, m)
              | Some shortcut \<Rightarrow>
                  let m = m\<lparr>calls := calls m @ [PreventDefault]\<rparr>;
                      m = m\<lparr>calls := calls m @ [StopPropagation]\<rparr>
                  in (case action shortcut of
                        None \<Rightarrow> (Some TypeError, m)
                      | Some h \<Rightarrow> (None, m\<lparr>calls := calls m @ [Action h]\<rparr>)))"

text \<open>
  The host delivers a \<open>'keydown'\<close> event to the listeners of the document in order. An
  error thrown by a listener is reported by the host and the delivery goes on.
\<close>

fun deliver :: "runtime \<Rightarrow> KeyboardEvent \<Rightarrow> listener list \<Rightarrow> 'h manager \<Rightarrow> 'h manager" where
  "deliver rt event [] m = m"
| "deliver rt event (HandleKeyDown # ls) m = deliver rt event ls (snd (handleKeyDown rt event m))"
| "deliver rt event (OtherListener n # ls) m = deliver rt event ls m"

definition keydown :: "runtime \<Rightarrow> KeyboardEvent \<Rightarrow> 'h manager \<Rightarrow> 'h manager" where
  "keydown rt event m = deliver rt event (keydownListeners m) m"

text \<open>
  \<open>formatShortcut\<close>. The glyphs are \<open>U+2318\<close>, \<open>U+2325\<close>, \<open>U+21E7\<close> for the modifiers and
  \<open>U+21B5\<close>, \<open>U+2191\<close>, \<open>U+2193\<close>, \<open>U+2190\<close>, \<open>U+2192\<close> for the keys. Reading \<open>toLowerCase\<close>
  of a \<open>key\<close> that is not there throws a \<open>TypeError\<close>.
\<close>

definition glyphCommand :: string where "glyphCommand = [CHR 0xE2, CHR 0x8C, CHR 0x98]"
definition glyphOption :: string where "glyphOption = [CHR 0xE2, CHR 0x8C, CHR 0xA5]"
definition glyphShift :: string where "glyphShift = [CHR 0xE2, CHR 0x87, CHR 0xA7]"
definition glyphEnter :: string where "glyphEnter = [CHR 0xE2, CHR 0x86, CHR 0xB5]"
definition glyphUp :: string where "glyphUp = [CHR 0xE2, CHR 0x86, CHR 0x91]"
definition glyphDown :: string where "glyphDown = [CHR 0xE2, CHR 0x86, CHR 0x93]"
definition glyphLeft :: string where "glyphLeft = [CHR 0xE2, CHR 0x86, CHR 0x90]"
definition glyphRight :: string where "glyphRight = [CHR 0xE2, CHR 0x86, CHR 0x92]"

definition isMac :: "runtime \<Rightarrow> bool" where
  "isMac rt = (indexOf (toUpperCase rt (platform rt)) ''MAC'' \<ge> 0)"

definition keyName :: "runtime \<Rightarrow> string \<Rightarrow> string" where
  "keyName rt k =
     (let l = toLowerCase rt k
      in if l = ''enter'' then glyphEnter
         else if l = ''escape'' then ''Esc''
         else if l = ''arrowup'' then glyphUp
         else if l = ''arrowdown'' then glyphDown
         else if l = ''arrowleft'' then glyphLeft
         else if l = ''arrowright'' then glyphRight
         else if l = '' '' then ''Space''
         else toUpperCase rt k)"

definition formatShortcut :: "runtime \<Rightarrow> 'h ShortcutAction \<Rightarrow> error + string" where
  "formatShortcut rt shortcut =
     (let parts = [];
          mac = isMac rt;
          parts = (if ctrlKey shortcut = Some True
                   then parts @ [if mac then glyphCommand else ''Ctrl''] else parts);
          parts = (if altKey shortcut = Some True
                   then parts @ [if mac then glyphOption else ''Alt''] else parts);
          parts = (if shiftKey shortcut = Some True
                   then parts @ [if mac then glyphShift else ''Shift''] else parts);
          parts = (if metaKey shortcut = Some True \<and> \<not> mac
                   then parts @ [''Meta''] else parts)
      in case key shortcut of
           None \<Rightarrow> Inl TypeError
         | Some k \<Rightarrow> Inr (join (if mac then [] else ''+'') (parts @ [keyName rt k])))"

section \<open>Notions of the specification\<close>

text \<open>
  The definitions of this section follow the words of the specification, to be compared
  with the operations above.
\<close>

datatype modifier = Control | Alt | Shift | Meta

fun hasModifier :: "'h ShortcutAction \<Rightarrow> modifier \<Rightarrow> bool" where
  "hasModifier s Control = (ctrlKey s = Some True)"
| "hasModifier s Alt = (altKey s = Some True)"
| "hasModifier s Shift = (shiftKey s = Some True)"
| "hasModifier s Meta = (metaKey s = Some True)"

text \<open>The present modifiers, in the fixed order control, alt, shift, meta.\<close>

definition presentModifiers :: "'h ShortcutAction \<Rightarrow> modifier list" where
  "presentModifiers s = filter (hasModifier s) [Control, Alt, Shift, Meta]"

fun modifierName :: "modifier \<Rightarrow> string" where
  "modifierName Control = ''ctrl''"
| "modifierName Alt = ''alt''"
| "modifierName Shift = ''shift''"
| "modifierName Meta = ''meta''"

text \<open>The modifier prefix: the names of the present modifiers, joined by the separator.\<close>

definition modifierPrefix :: "'h ShortcutAction \<Rightarrow> string" where
  "modifierPrefix s = join ''+'' (map modifierName (presentModifiers s))"

text \<open>
  The canonical key in the words of the specification: the names of the present
  modifiers followed by the lowercased primary key, joined by the separator; a binding
  with no primary key has the modifier prefix alone.
\<close>

definition canonicalKey :: "runtime \<Rightarrow> 'h ShortcutAction \<Rightarrow> string" where
  "canonicalKey rt s =
     join ''+'' (map modifierName (presentModifiers s) @
                 (case key s of None \<Rightarrow> [] | Some k \<Rightarrow> [toLowerCase rt k]))"

text \<open>
  The combination a binding stands for: its present modifiers and its primary key up
  to case.
\<close>

definition combination :: "runtime \<Rightarrow> 'h ShortcutAction \<Rightarrow> modifier list \<times> string option" where
  "combination rt s = (presentModifiers s, map_option (toLowerCase rt) (key s))"

text \<open>
  An editable surface: a text input field, a text area, or an element flagged as
  directly editable.
\<close>

definition editableSurface :: "EventTarget \<Rightarrow> bool" where
  "editableSurface tgt =
     (tagName tgt = ''INPUT'' \<or> tagName tgt = ''TEXTAREA'' \<or> isContentEditable tgt)"

text \<open>The handlers invoked by a sequence of host calls, in order.\<close>

fun invoked :: "'h call list \<Rightarrow> 'h list" where
  "invoked [] = []"
| "invoked (Action h # cs) = h # invoked cs"
| "invoked (c # cs) = invoked cs"

text \<open>
  The display label in the words of the specification: the labels of the present
  modifiers in the fixed order, then the glyph of the key. On a macOS-like platform
  meta has no label and the parts are joined with no separator.
\<close>

fun modifierLabel :: "bool \<Rightarrow> modifier \<Rightarrow> string list" where
  "modifierLabel True Control = [glyphCommand]"
| "modifierLabel True Alt = [glyphOption]"
| "modifierLabel True Shift = [glyphShift]"
| "modifierLabel True Meta = []"
| "modifierLabel False Control = [''Ctrl'']"
| "modifierLabel False Alt = [''Alt'']"
| "modifierLabel False Shift = [''Shift'']"
| "modifierLabel False Meta = [''Meta'']"

definition glyphTable :: "(string \<times> string) list" where
  "glyphTable =
     [(''enter'', glyphEnter), (''escape'', ''Esc''), (''arrowup'', glyphUp),
      (''arrowdown'', glyphDown), (''arrowleft'', glyphLeft), (''arrowright'', glyphRight),
      ('' '', ''Space'')]"

definition keyGlyph :: "runtime \<Rightarrow> string \<Rightarrow> string" where
  "keyGlyph rt k =
     (case map_of glyphTable (toLowerCase rt k) of
        Some g \<Rightarrow> g
      | None \<Rightarrow> toUpperCase rt k)"

definition displayLabel :: "runtime \<Rightarrow> 'h ShortcutAction \<Rightarrow> string \<Rightarrow> string" where
  "displayLabel rt s k =
     join (if isMac rt then [] else ''+'')
          (concat (map (modifierLabel (isMac rt)) (presentModifiers s)) @ [keyGlyph rt k])"




section \<open>Invariants and runs\<close>

text \<open>
  The registry invariant: no two entries share a key, and every binding is stored under
  its own canonical key. So at most one binding is stored for a canonical combination.
\<close>

definition registryInv :: "runtime \<Rightarrow> 'h manager \<Rightarrow> bool" where
  "registryInv rt m =
     (distinct (map fst (shortcuts m)) \<and>
      list_all (\<lambda>(k, b). k = getShortcutKey rt b) (shortcuts m))"

text \<open>
  The listener invariant: the document holds no listener twice, and the manager's
  handler is attached exactly when the flag says so.
\<close>

definition listenerInv :: "'h manager \<Rightarrow> bool" where
  "listenerInv m =
     (distinct (keydownListeners m) \<and>
      isListening m = (HandleKeyDown \<in> set (keydownListeners m)))"

text \<open>The operations on a manager, and a run of them from a state.\<close>

datatype 'h operation =
    Register "'h ShortcutAction"
  | Unregister "'h ShortcutAction"
  | StartListening
  | StopListening
  | Keydown KeyboardEvent

fun perform :: "runtime \<Rightarrow> 'h operation \<Rightarrow> 'h manager \<Rightarrow> 'h manager" where
  "perform rt (Register s) m = register rt s m"
| "perform rt (Unregister s) m = unregister rt s m"
| "perform rt StartListening m = startListening m"
| "perform rt StopListening m = stopListening m"
| "perform rt (Keydown event) m = keydown rt event m"

fun run :: "runtime \<Rightarrow> 'h operation list \<Rightarrow> 'h manager \<Rightarrow> 'h manager" where
  "run rt [] m = m"
| "run rt (op # ops) m = run rt ops (perform rt op m)"

section \<open>Concrete inputs\<close>

text \<open>The object \<open>{}\<close>, two hosts, and two event targets.\<close>

definition emptyShortcut :: "'h ShortcutAction" where
  "emptyShortcut =
     \<lparr>key = None, ctrlKey = None, altKey = None, shiftKey = None, metaKey = None,
      description = None, action = None\<rparr>"

definition winRuntime :: runtime where
  "winRuntime = \<lparr>unicodeLower = (\<lambda>s. s), unicodeUpper = (\<lambda>s. s), platform = ''Win32''\<rparr>"

definition macRuntime :: runtime where
  "macRuntime = \<lparr>unicodeLower = (\<lambda>s. s), unicodeUpper = (\<lambda>s. s), platform = ''MacIntel''\<rparr>"

definition bodyTarget :: EventTarget where
  "bodyTarget = \<lparr>tagName = ''BODY'', isContentEditable = False\<rparr>"

definition inputTarget :: EventTarget where
  "inputTarget = \<lparr>tagName = ''INPUT'', isContentEditable = False\<rparr>"

text \<open>The event of pressing \<open>S\<close> with control held, on a given target.\<close>

definition ctrlS :: "EventTarget \<Rightarrow> KeyboardEvent" where
  "ctrlS tgt =
     \<lparr>eventKey = ''S'', eventCtrlKey = True, eventAltKey = False, eventShiftKey = False,
      eventMetaKey = False, target = tgt\<rparr>"

text \<open>A binding for control and \<open>s\<close> with a given handler.\<close>

definition saveBinding :: "'h \<Rightarrow> 'h ShortcutAction" where
  "saveBinding h = emptyShortcut\<lparr>key := Some ''s'', ctrlKey := Some True, action := Some h\<rparr>"

text \<open>
  A manager that holds the binding for control and \<open>s\<close> and listens, on a page with one
  other listener.
\<close>

definition listeningManager :: "string manager" where
  "listeningManager = startListening (register winRuntime (saveBinding ''H1'') (newManager [7]))"



section \<open>Auxiliary facts\<close>

lemma getShortcutKey_parts:
  "getShortcutKey rt s =
     join ''+'' (map modifierName (presentModifiers s) @
                 (case key s of
                    None \<Rightarrow> []
                  | Some k \<Rightarrow> if k \<noteq> [] then [toLowerCase rt k] else []))"
  by (simp add: getShortcutKey_def presentModifiers_def split: option.split)

lemma toLowerCase_s: "toLowerCase rt ''S'' = ''s''" "toLowerCase rt ''s'' = ''s''"
  by (simp_all add: toLowerCase_def isAscii_def asciiLower_def)

lemma map_of_register:
  "map_of (shortcuts (register rt b m)) k =
     (if k = getShortcutKey rt b then Some b else map_of (shortcuts m) k)"
  by (simp add: register_def Let_def update_conv')

lemma getShortcutKey_cong:
  "ctrlKey s = ctrlKey s' \<Longrightarrow> altKey s = altKey s' \<Longrightarrow> shiftKey s = shiftKey s' \<Longrightarrow>
   metaKey s = metaKey s' \<Longrightarrow> key s = key s' \<Longrightarrow> getShortcutKey rt s = getShortcutKey rt s'"
  by (simp add: getShortcutKey_def)

lemma formatShortcut_cong:
  "ctrlKey s = ctrlKey s' \<Longrightarrow> altKey s = altKey s' \<Longrightarrow> shiftKey s = shiftKey s' \<Longrightarrow>
   metaKey s = metaKey s' \<Longrightarrow> key s = key s' \<Longrightarrow> formatShortcut rt s = formatShortcut rt s'"
  by (simp add: formatShortcut_def)

lemma toLowerCase_examples:
  "toLowerCase rt ''x'' = ''x''" "toLowerCase rt ''alt+x'' = ''alt+x''"
  "toLowerCase rt ''ctrl'' = ''ctrl''" "toLowerCase rt ''z'' = ''z''"
  "toLowerCase rt ''Enter'' = ''enter''" "toLowerCase rt ''b'' = ''b''"
  by (simp_all add: toLowerCase_def isAscii_def asciiLower_def)

lemma toUpperCase_b: "toUpperCase rt ''b'' = ''B''"
  by (simp add: toUpperCase_def isAscii_def asciiUpper_def)

lemma register_twice:
  "getShortcutKey rt b1 = getShortcutKey rt b2 \<Longrightarrow>
   register rt b2 (register rt b1 m) = register rt b2 m"
  by (simp add: register_def Let_def)

lemma map_of_unregister:
  "map_of (shortcuts (unregister rt p m)) = (map_of (shortcuts m))(getShortcutKey rt p := None)"
  by (simp add: unregister_def Let_def delete_conv')

lemma delete_absent: "map_of al k = None \<Longrightarrow> AList.delete k al = al"
  by (rule delete_id) (simp add: map_of_eq_None_iff)

lemma keyName_keyGlyph: "keyName rt k = keyGlyph rt k"
  by (simp add: keyName_def keyGlyph_def glyphTable_def Let_def)

lemma formatShortcut_displayLabel:
  "key s = Some k \<Longrightarrow> formatShortcut rt s = Inr (displayLabel rt s k)"
  by (cases "isMac rt")
     (simp_all add: formatShortcut_def displayLabel_def presentModifiers_def keyName_keyGlyph)

lemma isMac_macRuntime: "isMac macRuntime"
  by (simp add: isMac_def macRuntime_def toUpperCase_def isAscii_def asciiUpper_def indexOf_def)

lemma isMac_winRuntime: "\<not> isMac winRuntime"
  by (simp add: isMac_def winRuntime_def toUpperCase_def isAscii_def asciiUpper_def indexOf_def)

lemma keyGlyph_Enter: "keyGlyph rt ''Enter'' = glyphEnter"
  by (simp add: keyGlyph_def glyphTable_def toLowerCase_examples)

lemma keyGlyph_other:
  "toLowerCase rt k \<notin> set (map fst glyphTable) \<Longrightarrow> keyGlyph rt k = toUpperCase rt k"
  by (simp add: keyGlyph_def glyphTable_def)

lemma invoked_append: "invoked (xs @ ys) = invoked xs @ invoked ys"
  by (induction xs rule: invoked.induct) simp_all

lemma handleKeyDown_editable:
  "editableSurface (target event) \<Longrightarrow> handleKeyDown rt event m = (None, m)"
  by (simp add: handleKeyDown_def editableSurface_def Let_def)

lemma handleKeyDown_found:
  fixes m :: "'h manager"
  assumes "\<not> editableSurface (target event)"
    and "map_of (shortcuts m) (getShortcutKey rt (eventShortcut event :: 'h ShortcutAction)) = Some b"
    and "action b = Some h"
  shows "handleKeyDown rt event m =
           (None, m\<lparr>calls := calls m @ [PreventDefault, StopPropagation, Action h]\<rparr>)"
  using assms by (simp add: handleKeyDown_def editableSurface_def Let_def)


lemma handleKeyDown_fields:
  "shortcuts (snd (handleKeyDown rt event m)) = shortcuts m"
  "isListening (snd (handleKeyDown rt event m)) = isListening m"
  "keydownListeners (snd (handleKeyDown rt event m)) = keydownListeners m"
  by (simp_all add: handleKeyDown_def Let_def split: option.split)

lemma deliver_fields:
  "shortcuts (deliver rt event ls m) = shortcuts m \<and>
   isListening (deliver rt event ls m) = isListening m \<and>
   keydownListeners (deliver rt event ls m) = keydownListeners m"
  by (induction rt event ls m rule: deliver.induct) (simp_all add: handleKeyDown_fields)

lemma deliver_editable:
  "editableSurface (target event) \<Longrightarrow> deliver rt event ls m = m"
  by (induction rt event ls m rule: deliver.induct) (simp_all add: handleKeyDown_editable)

lemma deliver_absent:
  "HandleKeyDown \<notin> set ls \<Longrightarrow> deliver rt event ls m = m"
  by (induction rt event ls m rule: deliver.induct) simp_all

lemma deliver_once:
  "HandleKeyDown \<in> set ls \<Longrightarrow> distinct ls \<Longrightarrow>
   deliver rt event ls m = snd (handleKeyDown rt event m)"
  by (induction rt event ls m rule: deliver.induct) (auto simp add: deliver_absent)

lemma keydown_listening:
  "isListening m \<Longrightarrow> listenerInv m \<Longrightarrow> keydown rt event m = snd (handleKeyDown rt event m)"
  by (simp add: keydown_def listenerInv_def deliver_once)

lemma keydown_not_listening:
  "\<not> isListening m \<Longrightarrow> listenerInv m \<Longrightarrow> keydown rt event m = m"
  by (simp add: keydown_def listenerInv_def deliver_absent)

lemma keydown_fields:
  "shortcuts (keydown rt event m) = shortcuts m"
  "isListening (keydown rt event m) = isListening m"
  "keydownListeners (keydown rt event m) = keydownListeners m"
  by (simp_all add: keydown_def deliver_fields)

lemma registryInv_new: "registryInv rt (newManager others)"
  by (simp add: registryInv_def newManager_def)

lemma list_all_update:
  "list_all P al \<Longrightarrow> P (k, v) \<Longrightarrow> list_all P (AList.update k v al)"
  by (induction al) auto

lemma list_all_delete: "list_all P al \<Longrightarrow> list_all P (AList.delete k al)"
  by (induction al) auto

lemma registryInv_register: "registryInv rt m \<Longrightarrow> registryInv rt (register rt s m)"
  by (simp add: registryInv_def register_def Let_def distinct_update list_all_update)

lemma registryInv_unregister: "registryInv rt m \<Longrightarrow> registryInv rt (unregister rt s m)"
  by (simp add: registryInv_def unregister_def Let_def distinct_delete list_all_delete)

lemma registryInv_startListening: "registryInv rt m \<Longrightarrow> registryInv rt (startListening m)"
  by (simp add: registryInv_def startListening_def)

lemma registryInv_stopListening: "registryInv rt m \<Longrightarrow> registryInv rt (stopListening m)"
  by (simp add: registryInv_def stopListening_def)

lemma registryInv_keydown: "registryInv rt m \<Longrightarrow> registryInv rt (keydown rt event m)"
  by (simp add: registryInv_def keydown_fields)

lemma registryInv_perform: "registryInv rt m \<Longrightarrow> registryInv rt (perform rt op m)"
  by (cases op)
     (simp_all add: registryInv_register registryInv_unregister registryInv_startListening
        registryInv_stopListening registryInv_keydown)

lemma registryInv_run: "registryInv rt m \<Longrightarrow> registryInv rt (run rt ops m)"
  by (induction ops arbitrary: m) (simp_all add: registryInv_perform)

lemma listenerInv_new: "listenerInv (newManager others)"
  by (auto simp add: listenerInv_def newManager_def distinct_map inj_on_def)

lemma listenerInv_startListening: "listenerInv m \<Longrightarrow> listenerInv (startListening m)"
  by (auto simp add: listenerInv_def startListening_def addEventListener_def)

lemma listenerInv_stopListening: "listenerInv m \<Longrightarrow> listenerInv (stopListening m)"
  by (auto simp add: listenerInv_def stopListening_def removeEventListener_def)

lemma listenerInv_perform: "listenerInv m \<Longrightarrow> listenerInv (perform rt op m)"
  by (cases op)
     (simp_all add: listenerInv_startListening listenerInv_stopListening,
      simp_all add: listenerInv_def register_def unregister_def Let_def keydown_fields)

lemma listenerInv_run: "listenerInv m \<Longrightarrow> listenerInv (run rt ops m)"
  by (induction ops arbitrary: m) (simp_all add: listenerInv_perform)

lemma one_entry:
  "distinct (map fst al) \<Longrightarrow> map_of al k = Some v \<Longrightarrow>
   length (filter (\<lambda>(k', b). k' = k) al) = 1"
proof (induction al)
  case Nil
  then show ?case by simp
next
  case (Cons e al)
  obtain k' v' where e: "e = (k', v')" by (cases e)
  show ?case
  proof (cases "k' = k")
    case True
    with Cons.prems e have "k \<notin> fst ` set al" by auto
    then have "filter (\<lambda>(k', b). k' = k) al = []"
      by (force simp add: filter_empty_conv)
    with True e show ?thesis by simp
  next
    case False
    with Cons e show ?thesis by simp
  qed
qed

lemma count_one: "x \<in> set xs \<Longrightarrow> distinct xs \<Longrightarrow> count_list xs x = 1"
  by (induction xs) (auto simp add: count_list_0_iff)

lemma registryInv_handleKeyDown:
  "registryInv rt m \<Longrightarrow> registryInv rt (snd (handleKeyDown rt event m))"
  by (simp add: registryInv_def handleKeyDown_fields)

lemma eventKey_ctrlS:
  "getShortcutKey rt (eventShortcut (ctrlS tgt) :: 'h ShortcutAction) = ''ctrl+s''"
  by (simp add: getShortcutKey_def eventShortcut_def ctrlS_def toLowerCase_s)

lemma eventKey_ctrlQ:
  "getShortcutKey rt (eventShortcut (ctrlS tgt\<lparr>eventKey := ''q''\<rparr>) :: 'h ShortcutAction) = ''ctrl+q''"
  by (simp add: getShortcutKey_def eventShortcut_def ctrlS_def toLowerCase_def isAscii_def asciiLower_def)

lemma key_saveBinding: "getShortcutKey rt (saveBinding h) = ''ctrl+s''"
  by (simp add: getShortcutKey_def saveBinding_def emptyShortcut_def toLowerCase_s)

lemma not_editable_body: "\<not> editableSurface bodyTarget"
  by (simp add: editableSurface_def bodyTarget_def)

lemma editable_input: "editableSurface inputTarget"
  by (simp add: editableSurface_def inputTarget_def)

lemma listeningManager_eq:
  "listeningManager =
     \<lparr>shortcuts = [(''ctrl+s'', saveBinding ''H1'')], isListening = True,
      keydownListeners = [OtherListener 7, HandleKeyDown], calls = [AddEventListener]\<rparr>"
  by (simp add: listeningManager_def startListening_def register_def newManager_def
      key_saveBinding addEventListener_def)




section \<open>Dispatch\<close>



text \<open>
  Claim C2. For a key event whose target is a text input field, a text area or a
  content-editable element, \<open>handleKeyDown\<close> returns at once: no handler is invoked,
  neither \<open>preventDefault\<close> nor \<open>stopPropagation\<close> is called and the state is unchanged,
  whatever the bindings are; so delivering the event to the document changes nothing.
\<close>

theorem editable_target_ignored:
  assumes "editableSurface (target event)"
  shows "handleKeyDown rt event m = (None, m) \<and> keydown rt event m = m"
  using assms by (simp add: handleKeyDown_editable keydown_def deliver_editable)

text \<open>
  The theorem at the event control and \<open>S\<close> on an input field, which matches the
  binding of the listening manager.
\<close>

theorem editable_target_ignored_witness:
  "editableSurface (target (ctrlS inputTarget)) \<and>
   map_of (shortcuts listeningManager)
      (getShortcutKey winRuntime (eventShortcut (ctrlS inputTarget) :: string ShortcutAction)) =
      Some (saveBinding ''H1'') \<and>
   handleKeyDown winRuntime (ctrlS inputTarget) listeningManager = (None, listeningManager) \<and>
   keydown winRuntime (ctrlS inputTarget) listeningManager = listeningManager \<and>
   calls (keydown winRuntime (ctrlS inputTarget) listeningManager) = [AddEventListener]"
proof -
  have e: "editableSurface (target (ctrlS inputTarget))"
    by (simp add: ctrlS_def editable_input)
  have f: "map_of (shortcuts listeningManager)
      (getShortcutKey winRuntime (eventShortcut (ctrlS inputTarget) :: string ShortcutAction)) =
      Some (saveBinding ''H1'')"
    by (simp add: eventKey_ctrlS listeningManager_eq)
  note T = editable_target_ignored [OF e, of winRuntime listeningManager]
  have c: "calls (keydown winRuntime (ctrlS inputTarget) listeningManager) = [AddEventListener]"
    by (simp add: T [THEN conjunct2]) (simp add: listeningManager_eq)
  show ?thesis
    by (rule conjI [OF e conjI [OF f conjI [OF T [THEN conjunct1] conjI [OF T [THEN conjunct2] c]]]])
qed

section \<open>One binding for a combination\<close>

text \<open>
  Claim C3. A new manager satisfies the registry invariant, and every operation
  (\<open>register\<close>, \<open>unregister\<close>, \<open>startListening\<close>, \<open>stopListening\<close>, the delivery of a key
  event, and \<open>handleKeyDown\<close> itself) preserves it, so it holds after every run: at most
  one binding is stored for a canonical combination. Registering \<open>b1\<close> and then \<open>b2\<close>
  under the same combination leaves exactly one entry for it, which is \<open>b2\<close> (on a new
  manager, the only entry); a dispatch of that combination afterwards throws nothing
  and invokes the handler of \<open>b2\<close> and no other.
\<close>

theorem one_binding_per_combination:
  fixes m :: "'h manager"
  shows
  "registryInv rt (newManager others :: 'h manager) \<and>
   (registryInv rt m \<longrightarrow>
      registryInv rt (perform rt op m) \<and> registryInv rt (snd (handleKeyDown rt event m))) \<and>
   registryInv rt (run rt ops (newManager others :: 'h manager)) \<and>
   (registryInv rt m \<and> getShortcutKey rt b1 = getShortcutKey rt b2 \<longrightarrow>
      length (filter (\<lambda>(k, b). k = getShortcutKey rt b2)
                (shortcuts (register rt b2 (register rt b1 m)))) = 1 \<and>
      map_of (shortcuts (register rt b2 (register rt b1 m))) (getShortcutKey rt b2) = Some b2) \<and>
   (getShortcutKey rt b1 = getShortcutKey rt b2 \<longrightarrow>
      getShortcuts (register rt b2 (register rt b1 (newManager others))) = [b2]) \<and>
   (getShortcutKey rt b1 = getShortcutKey rt b2 \<and>
    getShortcutKey rt (eventShortcut event :: 'h ShortcutAction) = getShortcutKey rt b2 \<and>
    \<not> editableSurface (target event) \<and> action b2 = Some h2 \<longrightarrow>
      fst (handleKeyDown rt event (register rt b2 (register rt b1 m))) = None \<and>
      calls (snd (handleKeyDown rt event (register rt b2 (register rt b1 m)))) =
        calls m @ [PreventDefault, StopPropagation, Action h2] \<and>
      invoked (calls (snd (handleKeyDown rt event (register rt b2 (register rt b1 m))))) =
        invoked (calls m) @ [h2])"
proof (intro conjI impI)
  show "registryInv rt (newManager others :: 'h manager)"
    by (rule registryInv_new)
next
  assume v: "registryInv rt m"
  then show "registryInv rt (perform rt op m)"
    by (rule registryInv_perform)
  from v show "registryInv rt (snd (handleKeyDown rt event m))"
    by (rule registryInv_handleKeyDown)
next
  show "registryInv rt (run rt ops (newManager others :: 'h manager))"
    by (rule registryInv_run [OF registryInv_new])
next
  assume a: "registryInv rt m \<and> getShortcutKey rt b1 = getShortcutKey rt b2"
  then have i: "registryInv rt (register rt b2 (register rt b1 m))"
    by (simp add: registryInv_register)
  show l: "map_of (shortcuts (register rt b2 (register rt b1 m))) (getShortcutKey rt b2) = Some b2"
    by (simp add: map_of_register)
  from i have "distinct (map fst (shortcuts (register rt b2 (register rt b1 m))))"
    by (simp add: registryInv_def)
  then show "length (filter (\<lambda>(k, b). k = getShortcutKey rt b2)
                (shortcuts (register rt b2 (register rt b1 m)))) = 1"
    using l by (rule one_entry)
next
  assume "getShortcutKey rt b1 = getShortcutKey rt b2"
  then show "getShortcuts (register rt b2 (register rt b1 (newManager others))) = [b2]"
    by (simp add: getShortcuts_def register_def newManager_def)
next
  assume a: "getShortcutKey rt b1 = getShortcutKey rt b2 \<and>
    getShortcutKey rt (eventShortcut event :: 'h ShortcutAction) = getShortcutKey rt b2 \<and>
    \<not> editableSurface (target event) \<and> action b2 = Some h2"
  then have "map_of (shortcuts (register rt b2 (register rt b1 m)))
               (getShortcutKey rt (eventShortcut event :: 'h ShortcutAction)) = Some b2"
    by (simp add: map_of_register)
  with a have r: "handleKeyDown rt event (register rt b2 (register rt b1 m)) =
      (None, (register rt b2 (register rt b1 m))
         \<lparr>calls := calls (register rt b2 (register rt b1 m)) @
                     [PreventDefault, StopPropagation, Action h2]\<rparr>)"
    by (simp add: handleKeyDown_found)
  have c: "calls (register rt b2 (register rt b1 m)) = calls m"
    by (simp add: register_def)
  show "fst (handleKeyDown rt event (register rt b2 (register rt b1 m))) = None"
    by (simp add: r)
  show "calls (snd (handleKeyDown rt event (register rt b2 (register rt b1 m)))) =
        calls m @ [PreventDefault, StopPropagation, Action h2]"
    by (simp add: r c)
  show "invoked (calls (snd (handleKeyDown rt event (register rt b2 (register rt b1 m))))) =
        invoked (calls m) @ [h2]"
    by (simp add: r c invoked_append)
qed

text \<open>
  The theorem at two bindings for control and \<open>s\<close> with the handlers \<open>H1\<close> and \<open>H2\<close>,
  registered in this order on a new manager.
\<close>

theorem one_binding_per_combination_witness:
  "registryInv winRuntime (newManager [] :: string manager) \<and>
   registryInv winRuntime (perform winRuntime (Register (saveBinding ''H1'')) (newManager [])) \<and>
   registryInv winRuntime
     (run winRuntime [Register (saveBinding ''H1''), StartListening, Keydown (ctrlS bodyTarget),
        Unregister (saveBinding ''H2''), StopListening] (newManager [])) \<and>
   getShortcutKey winRuntime (saveBinding ''H1'') = getShortcutKey winRuntime (saveBinding ''H2'') \<and>
   length (filter (\<lambda>(k, b). k = getShortcutKey winRuntime (saveBinding ''H2''))
     (shortcuts (register winRuntime (saveBinding ''H2'')
        (register winRuntime (saveBinding ''H1'') (newManager []))))) = 1 \<and>
   getShortcuts (register winRuntime (saveBinding ''H2'')
        (register winRuntime (saveBinding ''H1'') (newManager []))) = [saveBinding ''H2''] \<and>
   getShortcutKey winRuntime (eventShortcut (ctrlS bodyTarget) :: string ShortcutAction) =
     getShortcutKey winRuntime (saveBinding ''H2'') \<and>
   \<not> editableSurface (target (ctrlS bodyTarget)) \<and>
   action (saveBinding ''H2'') = Some ''H2'' \<and>
   invoked (calls (snd (handleKeyDown winRuntime (ctrlS bodyTarget)
     (register winRuntime (saveBinding ''H2'')
        (register winRuntime (saveBinding ''H1'') (newManager [])))))) = [''H2'']"
proof -
  note T = one_binding_per_combination
    [where rt = winRuntime and others = "[]" and m = "newManager [] :: string manager"
       and op = "Register (saveBinding ''H1'')"
       and ops = "[Register (saveBinding ''H1''), StartListening, Keydown (ctrlS bodyTarget),
        Unregister (saveBinding ''H2''), StopListening]"
       and ?b1.0 = "saveBinding ''H1''" and ?b2.0 = "saveBinding ''H2''"
       and event = "ctrlS bodyTarget" and ?h2.0 = "''H2''"]
  note i = T [THEN conjunct1]
  note p = T [THEN conjunct2, THEN conjunct1, rule_format, OF i, THEN conjunct1]
  note r = T [THEN conjunct2, THEN conjunct2, THEN conjunct1]
  have k: "getShortcutKey winRuntime (saveBinding ''H1'') = getShortcutKey winRuntime (saveBinding ''H2'')"
    by (simp add: key_saveBinding)
  note l = T [THEN conjunct2, THEN conjunct2, THEN conjunct2, THEN conjunct1, rule_format,
      OF conjI [OF i k], THEN conjunct1]
  note g = T [THEN conjunct2, THEN conjunct2, THEN conjunct2, THEN conjunct2, THEN conjunct1,
      rule_format, OF k]
  have e: "getShortcutKey winRuntime (eventShortcut (ctrlS bodyTarget) :: string ShortcutAction) =
     getShortcutKey winRuntime (saveBinding ''H2'')"
    by (simp add: key_saveBinding eventKey_ctrlS)
  have n: "\<not> editableSurface (target (ctrlS bodyTarget))"
    by (simp add: ctrlS_def not_editable_body)
  have a: "action (saveBinding ''H2'') = Some ''H2''"
    by (simp add: saveBinding_def)
  note d = T [THEN conjunct2, THEN conjunct2, THEN conjunct2, THEN conjunct2, THEN conjunct2,
      rule_format, OF conjI [OF k conjI [OF e conjI [OF n a]]]]
  have v: "invoked (calls (snd (handleKeyDown winRuntime (ctrlS bodyTarget)
     (register winRuntime (saveBinding ''H2'')
        (register winRuntime (saveBinding ''H1'') (newManager [])))))) = [''H2'']"
    using d [THEN conjunct2, THEN conjunct2] by (simp add: newManager_def)
  show ?thesis
    by (rule conjI [OF i conjI [OF p conjI [OF r conjI [OF k conjI [OF l conjI [OF g
          conjI [OF e conjI [OF n conjI [OF a v]]]]]]]]])
qed

section \<open>The canonical key\<close>

text \<open>
  Claim C4, amended. For every binding whose primary key is not the empty string, the
  canonical key computed by \<open>getShortcutKey\<close> is the names of the present modifiers in
  the order control, alt, shift, meta, followed by the lowercased primary key, joined
  by \<open>+\<close>. The registry identifies bindings by this key: after a registration of \<open>b\<close>,
  looking up the key of \<open>s\<close> finds \<open>b\<close> exactly when the two canonical keys are equal.
  Bindings with the same present modifiers and the same primary key up to case have
  the same canonical key; in particular a binding with key \<open>s\<close> and the same binding
  with key \<open>S\<close> do, and the event of pressing \<open>S\<close> with control held has the canonical
  key of the binding registered for control and \<open>s\<close>. A binding whose primary key is
  the empty string has the modifier names alone, with no separator after them.
\<close>

theorem canonical_key_nonempty:
  fixes s s' b :: "'h ShortcutAction"
  shows
  "(key s \<noteq> Some [] \<longrightarrow> getShortcutKey rt s = canonicalKey rt s) \<and>
   map_of (shortcuts (register rt b m)) (getShortcutKey rt s) =
     (if getShortcutKey rt s = getShortcutKey rt b then Some b
      else map_of (shortcuts m) (getShortcutKey rt s)) \<and>
   (presentModifiers s = presentModifiers s' \<and> key s = Some k \<and> key s' = Some k' \<and>
    k \<noteq> [] \<and> k' \<noteq> [] \<and> toLowerCase rt k = toLowerCase rt k'
      \<longrightarrow> getShortcutKey rt s = getShortcutKey rt s') \<and>
   getShortcutKey rt (s\<lparr>key := Some ''s''\<rparr>) = getShortcutKey rt (s\<lparr>key := Some ''S''\<rparr>) \<and>
   getShortcutKey rt (eventShortcut (ctrlS tgt) :: 'h ShortcutAction) =
     getShortcutKey rt (saveBinding h :: 'h ShortcutAction) \<and>
   (key s = Some [] \<longrightarrow> getShortcutKey rt s = modifierPrefix s)"
proof (intro conjI impI)
  assume "key s = Some []"
  then show "getShortcutKey rt s = modifierPrefix s"
    by (simp add: getShortcutKey_parts modifierPrefix_def)
next
  show "getShortcutKey rt (eventShortcut (ctrlS tgt) :: 'h ShortcutAction) =
     getShortcutKey rt (saveBinding h :: 'h ShortcutAction)"
    by (simp add: eventKey_ctrlS key_saveBinding)
next
  assume "key s \<noteq> Some []"
  then show "getShortcutKey rt s = canonicalKey rt s"
    by (cases "key s") (simp_all add: getShortcutKey_parts canonicalKey_def)
next
  show "map_of (shortcuts (register rt b m)) (getShortcutKey rt s) =
     (if getShortcutKey rt s = getShortcutKey rt b then Some b
      else map_of (shortcuts m) (getShortcutKey rt s))"
    by (rule map_of_register)
next
  assume "presentModifiers s = presentModifiers s' \<and> key s = Some k \<and> key s' = Some k' \<and>
    k \<noteq> [] \<and> k' \<noteq> [] \<and> toLowerCase rt k = toLowerCase rt k'"
  then show "getShortcutKey rt s = getShortcutKey rt s'"
    by (simp add: getShortcutKey_parts)
next
  show "getShortcutKey rt (s\<lparr>key := Some ''s''\<rparr>) = getShortcutKey rt (s\<lparr>key := Some ''S''\<rparr>)"
    by (simp add: getShortcutKey_parts presentModifiers_def toLowerCase_s)
qed

text \<open>
  The theorem at the binding for control and \<open>s\<close>, whose canonical key is \<open>ctrl+s\<close>, and
  at the same combination written with \<open>S\<close>.
\<close>

theorem canonical_key_nonempty_witness:
  "key (saveBinding ''H1'') \<noteq> Some [] \<and>
   getShortcutKey winRuntime (saveBinding ''H1'') = canonicalKey winRuntime (saveBinding ''H1'') \<and>
   canonicalKey winRuntime (saveBinding ''H1'') = ''ctrl+s'' \<and>
   (presentModifiers (saveBinding ''H1'') = presentModifiers (saveBinding ''H2''\<lparr>key := Some ''S''\<rparr>) \<and>
    key (saveBinding ''H1'') = Some ''s'' \<and> key (saveBinding ''H2''\<lparr>key := Some ''S''\<rparr>) = Some ''S'' \<and>
    ''s'' \<noteq> [] \<and> ''S'' \<noteq> [] \<and> toLowerCase winRuntime ''s'' = toLowerCase winRuntime ''S'') \<and>
   getShortcutKey winRuntime (saveBinding ''H1'') =
     getShortcutKey winRuntime (saveBinding ''H2''\<lparr>key := Some ''S''\<rparr>) \<and>
   key (saveBinding ''H1''\<lparr>key := Some []\<rparr>) = Some [] \<and>
   getShortcutKey winRuntime (saveBinding ''H1''\<lparr>key := Some []\<rparr>) =
     modifierPrefix (saveBinding ''H1''\<lparr>key := Some []\<rparr>)"
proof -
  note T = canonical_key_nonempty [where s = "saveBinding ''H1''" and rt = winRuntime
      and s' = "saveBinding ''H2''\<lparr>key := Some ''S''\<rparr>" and k = "''s''" and k' = "''S''" and b = "saveBinding ''H1''" and m = "newManager []"]
  have h1: "key (saveBinding ''H1'') \<noteq> Some []"
    by (simp add: saveBinding_def emptyShortcut_def)
  have h3: "presentModifiers (saveBinding ''H1'') = presentModifiers (saveBinding ''H2''\<lparr>key := Some ''S''\<rparr>) \<and>
    key (saveBinding ''H1'') = Some ''s'' \<and> key (saveBinding ''H2''\<lparr>key := Some ''S''\<rparr>) = Some ''S'' \<and>
    ''s'' \<noteq> [] \<and> ''S'' \<noteq> [] \<and> toLowerCase winRuntime ''s'' = toLowerCase winRuntime ''S''"
    by (simp add: saveBinding_def emptyShortcut_def presentModifiers_def toLowerCase_s)
  have e: "canonicalKey winRuntime (saveBinding ''H1'') = ''ctrl+s''"
    by (simp add: canonicalKey_def saveBinding_def emptyShortcut_def presentModifiers_def toLowerCase_s)
  have c1: "getShortcutKey winRuntime (saveBinding ''H1'') = canonicalKey winRuntime (saveBinding ''H1'')"
    by (rule T [THEN conjunct1, rule_format, OF h1])
  have c3: "getShortcutKey winRuntime (saveBinding ''H1'') =
     getShortcutKey winRuntime (saveBinding ''H2''\<lparr>key := Some ''S''\<rparr>)"
    by (rule T [THEN conjunct2, THEN conjunct2, THEN conjunct1, rule_format, OF h3])
  have h6: "key (saveBinding ''H1''\<lparr>key := Some []\<rparr>) = Some []"
    by simp
  note c6 = canonical_key_nonempty
    [where s = "saveBinding ''H1''\<lparr>key := Some []\<rparr>" and rt = winRuntime,
      THEN conjunct2, THEN conjunct2, THEN conjunct2, THEN conjunct2, THEN conjunct2,
      rule_format, OF h6]
  show ?thesis
    by (rule conjI [OF h1 conjI [OF c1 conjI [OF e conjI [OF h3 conjI [OF c3
          conjI [OF h6 c6]]]]]])
qed

text \<open>
  Claim C4 as stated fails for a primary key that is the empty string: \<open>getShortcutKey\<close>
  tests \<open>shortcut.key\<close> for truth before pushing it, so the binding
  \<open>{key: '', ctrlKey: true}\<close> has the key \<open>ctrl\<close>, where the modifier name followed by the
  lowercased key and joined by the separator is \<open>ctrl+\<close>.
\<close>

theorem canonical_key_empty_key_counterexample:
  "getShortcutKey winRuntime
     (emptyShortcut\<lparr>key := Some [], ctrlKey := Some True\<rparr> :: string ShortcutAction) = ''ctrl'' \<and>
   canonicalKey winRuntime
     (emptyShortcut\<lparr>key := Some [], ctrlKey := Some True\<rparr> :: string ShortcutAction) = ''ctrl+''"
  by (simp add: getShortcutKey_def canonicalKey_def presentModifiers_def emptyShortcut_def toLowerCase_def)

section \<open>Listening\<close>

text \<open>
  Claim C5. \<open>startListening\<close> twice is \<open>startListening\<close> once, and the flag is true
  afterwards; in a state that satisfies the listener invariant the handler is then
  attached exactly once, and an event runs \<open>handleKeyDown\<close> once. \<open>stopListening\<close> on
  a manager that is not listening, a new manager included, returns the state as it is:
  no call of \<open>removeEventListener\<close> is made. \<open>stopListening\<close> twice is
  \<open>stopListening\<close> once, and the flag is false afterwards; the handler is then not
  attached and an event changes nothing. The listener invariant holds after every run
  from a new manager.
\<close>

theorem listening_idempotent:
  fixes m :: "'h manager"
  shows
  "startListening (startListening m) = startListening m \<and>
   isListening (startListening m) \<and>
   (listenerInv m \<longrightarrow>
      listenerInv (startListening m) \<and>
      count_list (keydownListeners (startListening (startListening m))) HandleKeyDown = 1 \<and>
      keydown rt event (startListening (startListening m)) =
        snd (handleKeyDown rt event (startListening (startListening m)))) \<and>
   (\<not> isListening m \<longrightarrow> stopListening m = m) \<and>
   stopListening (newManager others :: 'h manager) = newManager others \<and>
   stopListening (stopListening m) = stopListening m \<and>
   \<not> isListening (stopListening m) \<and>
   (listenerInv m \<longrightarrow>
      listenerInv (stopListening m) \<and>
      count_list (keydownListeners (stopListening m)) HandleKeyDown = 0 \<and>
      keydown rt event (stopListening m) = stopListening m) \<and>
   listenerInv (run rt ops (newManager others :: 'h manager))"
proof (intro conjI impI)
  show "listenerInv (run rt ops (newManager others :: 'h manager))"
    by (rule listenerInv_run [OF listenerInv_new])
  show i: "startListening (startListening m) = startListening m"
    by (simp add: startListening_def)
  show l: "isListening (startListening m)"
    by (simp add: startListening_def)
  show "stopListening (stopListening m) = stopListening m"
    by (simp add: stopListening_def)
  show n: "\<not> isListening (stopListening m)"
    by (simp add: stopListening_def)
  show "stopListening (newManager others :: 'h manager) = newManager others"
    by (simp add: stopListening_def newManager_def)
  {
    assume "\<not> isListening m"
    then show "stopListening m = m"
      by (simp add: stopListening_def)
  }
  {
    assume v: "listenerInv m"
    then show s: "listenerInv (startListening m)"
      by (rule listenerInv_startListening)
    from s l have "HandleKeyDown \<in> set (keydownListeners (startListening m))"
      and "distinct (keydownListeners (startListening m))"
      by (simp_all add: listenerInv_def)
    then show "count_list (keydownListeners (startListening (startListening m))) HandleKeyDown = 1"
      by (simp add: i count_one)
    from l s show "keydown rt event (startListening (startListening m)) =
        snd (handleKeyDown rt event (startListening (startListening m)))"
      by (simp add: i keydown_listening)
    from v show t: "listenerInv (stopListening m)"
      by (rule listenerInv_stopListening)
    from t n have "HandleKeyDown \<notin> set (keydownListeners (stopListening m))"
      by (simp add: listenerInv_def)
    then show "count_list (keydownListeners (stopListening m)) HandleKeyDown = 0"
      by (simp add: count_list_0_iff)
    from n t show "keydown rt event (stopListening m) = stopListening m"
      by (rule keydown_not_listening)
  }
qed

text \<open>The theorem at a new manager on a page with one other listener.\<close>

theorem listening_idempotent_witness:
  "listenerInv (newManager [7] :: string manager) \<and>
   keydownListeners (startListening (startListening (newManager [7] :: string manager))) =
     [OtherListener 7, HandleKeyDown] \<and>
   calls (startListening (startListening (newManager [7] :: string manager))) = [AddEventListener] \<and>
   count_list (keydownListeners (startListening (startListening (newManager [7] :: string manager))))
     HandleKeyDown = 1 \<and>
   \<not> isListening (newManager [7] :: string manager) \<and>
   stopListening (newManager [7] :: string manager) = newManager [7] \<and>
   calls (stopListening (newManager [7] :: string manager)) = [] \<and>
   keydown winRuntime (ctrlS bodyTarget) (stopListening (newManager [7] :: string manager)) =
     stopListening (newManager [7])"
proof -
  note T = listening_idempotent
    [where m = "newManager [7] :: string manager" and rt = winRuntime
       and event = "ctrlS bodyTarget" and others = "[7]" and ops = "[]"]
  have v: "listenerInv (newManager [7] :: string manager)"
    using T [THEN conjunct2, THEN conjunct2, THEN conjunct2, THEN conjunct2, THEN conjunct2,
      THEN conjunct2, THEN conjunct2, THEN conjunct2] by simp
  have n: "\<not> isListening (newManager [7] :: string manager)"
    by (simp add: newManager_def)
  note i = T [THEN conjunct1]
  have s: "startListening (newManager [7] :: string manager) =
     \<lparr>shortcuts = [], isListening = True,
      keydownListeners = [OtherListener 7, HandleKeyDown], calls = [AddEventListener]\<rparr>"
    by (simp add: startListening_def newManager_def addEventListener_def)
  have c1: "keydownListeners (startListening (startListening (newManager [7] :: string manager))) =
     [OtherListener 7, HandleKeyDown]"
    by (simp add: i) (simp add: s)
  have c2: "calls (startListening (startListening (newManager [7] :: string manager))) = [AddEventListener]"
    by (simp add: i) (simp add: s)
  note c3 = T [THEN conjunct2, THEN conjunct2, THEN conjunct1, rule_format, OF v,
      THEN conjunct2, THEN conjunct1]
  note c4 = T [THEN conjunct2, THEN conjunct2, THEN conjunct2, THEN conjunct1, rule_format, OF n]
  have c5: "calls (stopListening (newManager [7] :: string manager)) = []"
    by (simp add: c4) (simp add: newManager_def)
  note c6 = T [THEN conjunct2, THEN conjunct2, THEN conjunct2, THEN conjunct2, THEN conjunct2,
      THEN conjunct2, THEN conjunct2, THEN conjunct1, rule_format, OF v, THEN conjunct2,
      THEN conjunct2]
  show ?thesis
    by (rule conjI [OF v conjI [OF c1 conjI [OF c2 conjI [OF c3 conjI [OF n conjI [OF c4
          conjI [OF c5 c6]]]]]]])
qed

section \<open>Unregistering\<close>

text \<open>
  Claim C6. \<open>unregister\<close> identifies the entry by the canonical key of its argument
  alone: the handler and the description of the argument are ignored, and two
  arguments with the same modifier flags and primary key do the same. It removes the
  entry under that key and no other. If the mapping has no entry under that key, the
  state is unchanged; \<open>unregister\<close> has no failure.
\<close>

theorem unregister_by_canonical_key:
  fixes p p' :: "'h ShortcutAction" and m :: "'h manager"
  shows
  "unregister rt (p\<lparr>description := d, action := a\<rparr>) m = unregister rt p m \<and>
   (ctrlKey p = ctrlKey p' \<and> altKey p = altKey p' \<and> shiftKey p = shiftKey p' \<and>
    metaKey p = metaKey p' \<and> key p = key p' \<longrightarrow> unregister rt p m = unregister rt p' m) \<and>
   map_of (shortcuts (unregister rt p m)) = (map_of (shortcuts m))(getShortcutKey rt p := None) \<and>
   unregister rt p m = m\<lparr>shortcuts := filter (\<lambda>(k, b). k \<noteq> getShortcutKey rt p) (shortcuts m)\<rparr> \<and>
   (map_of (shortcuts m) (getShortcutKey rt p) = None \<longrightarrow> unregister rt p m = m)"
proof (intro conjI impI)
  show "unregister rt (p\<lparr>description := d, action := a\<rparr>) m = unregister rt p m"
    by (simp add: unregister_def getShortcutKey_def)
next
  assume "ctrlKey p = ctrlKey p' \<and> altKey p = altKey p' \<and> shiftKey p = shiftKey p' \<and>
    metaKey p = metaKey p' \<and> key p = key p'"
  then have "getShortcutKey rt p = getShortcutKey rt p'"
    by (intro getShortcutKey_cong) simp_all
  then show "unregister rt p m = unregister rt p' m"
    by (simp add: unregister_def)
next
  show "map_of (shortcuts (unregister rt p m)) = (map_of (shortcuts m))(getShortcutKey rt p := None)"
    by (rule map_of_unregister)
next
  show "unregister rt p m = m\<lparr>shortcuts := filter (\<lambda>(k, b). k \<noteq> getShortcutKey rt p) (shortcuts m)\<rparr>"
    unfolding unregister_def Let_def AList.delete_eq
    by (rule arg_cong [where f = "\<lambda>x. m\<lparr>shortcuts := x\<rparr>"]) (rule filter_cong, auto)
next
  assume "map_of (shortcuts m) (getShortcutKey rt p) = None"
  then show "unregister rt p m = m"
    unfolding unregister_def Let_def by (simp only: delete_absent) simp
qed

text \<open>
  The theorem at unregistering alt and \<open>z\<close> from a manager that holds only the binding
  for control and \<open>s\<close>.
\<close>

theorem unregister_by_canonical_key_witness:
  "(ctrlKey (emptyShortcut\<lparr>key := Some ''z'', altKey := Some True\<rparr> :: string ShortcutAction) =
      ctrlKey (emptyShortcut\<lparr>key := Some ''z'', altKey := Some True, action := Some ''H2''\<rparr>) \<and>
    altKey (emptyShortcut\<lparr>key := Some ''z'', altKey := Some True\<rparr> :: string ShortcutAction) =
      altKey (emptyShortcut\<lparr>key := Some ''z'', altKey := Some True, action := Some ''H2''\<rparr>) \<and>
    shiftKey (emptyShortcut\<lparr>key := Some ''z'', altKey := Some True\<rparr> :: string ShortcutAction) =
      shiftKey (emptyShortcut\<lparr>key := Some ''z'', altKey := Some True, action := Some ''H2''\<rparr>) \<and>
    metaKey (emptyShortcut\<lparr>key := Some ''z'', altKey := Some True\<rparr> :: string ShortcutAction) =
      metaKey (emptyShortcut\<lparr>key := Some ''z'', altKey := Some True, action := Some ''H2''\<rparr>) \<and>
    key (emptyShortcut\<lparr>key := Some ''z'', altKey := Some True\<rparr> :: string ShortcutAction) =
      key (emptyShortcut\<lparr>key := Some ''z'', altKey := Some True, action := Some ''H2''\<rparr>)) \<and>
   unregister winRuntime (emptyShortcut\<lparr>key := Some ''z'', altKey := Some True\<rparr>)
       (register winRuntime (saveBinding ''H1'') (newManager [])) =
     unregister winRuntime (emptyShortcut\<lparr>key := Some ''z'', altKey := Some True, action := Some ''H2''\<rparr>)
       (register winRuntime (saveBinding ''H1'') (newManager [])) \<and>
   map_of (shortcuts (register winRuntime (saveBinding ''H1'') (newManager [])))
     (getShortcutKey winRuntime (emptyShortcut\<lparr>key := Some ''z'', altKey := Some True\<rparr> :: string ShortcutAction)) = None \<and>
   unregister winRuntime (emptyShortcut\<lparr>key := Some ''z'', altKey := Some True\<rparr>)
       (register winRuntime (saveBinding ''H1'') (newManager [])) =
     register winRuntime (saveBinding ''H1'') (newManager [])"
proof -
  note T = unregister_by_canonical_key
    [where p = "emptyShortcut\<lparr>key := Some ''z'', altKey := Some True\<rparr> :: string ShortcutAction"
       and p' = "emptyShortcut\<lparr>key := Some ''z'', altKey := Some True, action := Some ''H2''\<rparr>"
       and rt = winRuntime and m = "register winRuntime (saveBinding ''H1'') (newManager [])"
       and d = None and a = None]
  have h2: "ctrlKey (emptyShortcut\<lparr>key := Some ''z'', altKey := Some True\<rparr> :: string ShortcutAction) =
      ctrlKey (emptyShortcut\<lparr>key := Some ''z'', altKey := Some True, action := Some ''H2''\<rparr>) \<and>
    altKey (emptyShortcut\<lparr>key := Some ''z'', altKey := Some True\<rparr> :: string ShortcutAction) =
      altKey (emptyShortcut\<lparr>key := Some ''z'', altKey := Some True, action := Some ''H2''\<rparr>) \<and>
    shiftKey (emptyShortcut\<lparr>key := Some ''z'', altKey := Some True\<rparr> :: string ShortcutAction) =
      shiftKey (emptyShortcut\<lparr>key := Some ''z'', altKey := Some True, action := Some ''H2''\<rparr>) \<and>
    metaKey (emptyShortcut\<lparr>key := Some ''z'', altKey := Some True\<rparr> :: string ShortcutAction) =
      metaKey (emptyShortcut\<lparr>key := Some ''z'', altKey := Some True, action := Some ''H2''\<rparr>) \<and>
    key (emptyShortcut\<lparr>key := Some ''z'', altKey := Some True\<rparr> :: string ShortcutAction) =
      key (emptyShortcut\<lparr>key := Some ''z'', altKey := Some True, action := Some ''H2''\<rparr>)"
    by simp
  have kz: "getShortcutKey winRuntime (emptyShortcut\<lparr>key := Some ''z'', altKey := Some True\<rparr> :: string ShortcutAction) = ''alt+z''"
    by (simp add: getShortcutKey_def emptyShortcut_def toLowerCase_examples)
  have ks: "getShortcutKey winRuntime (saveBinding ''H1'') = ''ctrl+s''"
    by (simp add: getShortcutKey_def saveBinding_def emptyShortcut_def toLowerCase_s)
  have h5: "map_of (shortcuts (register winRuntime (saveBinding ''H1'') (newManager [])))
     (getShortcutKey winRuntime (emptyShortcut\<lparr>key := Some ''z'', altKey := Some True\<rparr> :: string ShortcutAction)) = None"
    by (simp add: map_of_register kz ks newManager_def)
  note c2 = T [THEN conjunct2, THEN conjunct1, rule_format, OF h2]
  note c5 = T [THEN conjunct2, THEN conjunct2, THEN conjunct2, THEN conjunct2, rule_format, OF h5]
  show ?thesis by (rule conjI [OF h2 conjI [OF c2 conjI [OF h5 c5]]])
qed

section \<open>Display\<close>

text \<open>
  Claim C7. For a binding with a primary key, \<open>formatShortcut\<close> renders the labels of
  the present modifiers in the order control, alt, shift, meta, followed by the glyph
  of the key: on a macOS-like platform the glyphs \<open>U+2318\<close>, \<open>U+2325\<close>, \<open>U+21E7\<close> with no
  separator and nothing for meta, on another platform \<open>Ctrl\<close>, \<open>Alt\<close>, \<open>Shift\<close>, \<open>Meta\<close>
  joined by \<open>+\<close>. On a macOS-like platform the meta flag does not change the label.
  A key whose lowercased name is not in the glyph table is rendered upper-cased. The
  binding \<open>{ctrlKey: true, key: 'Enter'}\<close> is \<open>Ctrl+\<close> followed by \<open>U+21B5\<close> on a platform
  that is not macOS-like, and \<open>U+2318\<close> followed by \<open>U+21B5\<close> on one that is.
\<close>

theorem formatShortcut_renders_label:
  fixes s :: "'h ShortcutAction"
  shows
  "(key s = Some k \<longrightarrow> formatShortcut rt s = Inr (displayLabel rt s k)) \<and>
   (isMac rt \<longrightarrow> formatShortcut rt (s\<lparr>metaKey := x\<rparr>) = formatShortcut rt s) \<and>
   (key s = Some k \<and> toLowerCase rt k \<notin> set (map fst glyphTable) \<longrightarrow>
      formatShortcut rt s =
        Inr (join (if isMac rt then [] else ''+'')
               (concat (map (modifierLabel (isMac rt)) (presentModifiers s)) @
                [toUpperCase rt k]))) \<and>
   (\<not> isMac rt \<longrightarrow>
      formatShortcut rt (emptyShortcut\<lparr>key := Some ''Enter'', ctrlKey := Some True\<rparr>
                          :: 'h ShortcutAction) = Inr (''Ctrl+'' @ glyphEnter)) \<and>
   (isMac rt \<longrightarrow>
      formatShortcut rt (emptyShortcut\<lparr>key := Some ''Enter'', ctrlKey := Some True\<rparr>
                          :: 'h ShortcutAction) = Inr (glyphCommand @ glyphEnter))"
proof (intro conjI impI)
  assume "key s = Some k"
  then show "formatShortcut rt s = Inr (displayLabel rt s k)"
    by (rule formatShortcut_displayLabel)
next
  assume "isMac rt"
  then show "formatShortcut rt (s\<lparr>metaKey := x\<rparr>) = formatShortcut rt s"
    by (simp add: formatShortcut_def Let_def)
next
  assume "key s = Some k \<and> toLowerCase rt k \<notin> set (map fst glyphTable)"
  then show "formatShortcut rt s =
        Inr (join (if isMac rt then [] else ''+'')
               (concat (map (modifierLabel (isMac rt)) (presentModifiers s)) @
                [toUpperCase rt k]))"
    by (simp add: formatShortcut_displayLabel [where k = k] displayLabel_def keyGlyph_other)
next
  assume "\<not> isMac rt"
  then show "formatShortcut rt (emptyShortcut\<lparr>key := Some ''Enter'', ctrlKey := Some True\<rparr>
                          :: 'h ShortcutAction) = Inr (''Ctrl+'' @ glyphEnter)"
    by (simp add: formatShortcut_displayLabel [where k = "''Enter''"] displayLabel_def
        presentModifiers_def emptyShortcut_def keyGlyph_Enter)
next
  assume "isMac rt"
  then show "formatShortcut rt (emptyShortcut\<lparr>key := Some ''Enter'', ctrlKey := Some True\<rparr>
                          :: 'h ShortcutAction) = Inr (glyphCommand @ glyphEnter)"
    by (simp add: formatShortcut_displayLabel [where k = "''Enter''"] displayLabel_def
        presentModifiers_def emptyShortcut_def keyGlyph_Enter)
qed

text \<open>
  The theorem on a host whose platform is \<open>Win32\<close> and on one whose platform is
  \<open>MacIntel\<close>: control, meta and \<open>b\<close> is \<open>Ctrl+Meta+B\<close> on the first, and the meta
  flag adds nothing on the second.
\<close>

theorem formatShortcut_renders_label_witness:
  "key (emptyShortcut\<lparr>key := Some ''b'', ctrlKey := Some True, metaKey := Some True\<rparr> :: string ShortcutAction) = Some ''b'' \<and>
   toLowerCase winRuntime ''b'' \<notin> set (map fst glyphTable) \<and>
   formatShortcut winRuntime
     (emptyShortcut\<lparr>key := Some ''b'', ctrlKey := Some True, metaKey := Some True\<rparr> :: string ShortcutAction) =
     Inr ''Ctrl+Meta+B'' \<and>
   \<not> isMac winRuntime \<and>
   formatShortcut winRuntime
     (emptyShortcut\<lparr>key := Some ''Enter'', ctrlKey := Some True\<rparr> :: string ShortcutAction) =
     Inr (''Ctrl+'' @ glyphEnter) \<and>
   isMac macRuntime \<and>
   formatShortcut macRuntime
     (emptyShortcut\<lparr>key := Some ''Enter'', ctrlKey := Some True\<rparr> :: string ShortcutAction) =
     Inr (glyphCommand @ glyphEnter) \<and>
   formatShortcut macRuntime
     (emptyShortcut\<lparr>key := Some ''Enter'', ctrlKey := Some True\<rparr>\<lparr>metaKey := Some True\<rparr> :: string ShortcutAction) =
     Inr (glyphCommand @ glyphEnter)"
proof -
  note W = formatShortcut_renders_label
    [where rt = winRuntime and k = "''b''"
       and s = "emptyShortcut\<lparr>key := Some ''b'', ctrlKey := Some True, metaKey := Some True\<rparr> :: string ShortcutAction"]
  note M = formatShortcut_renders_label
    [where rt = macRuntime and k = "''Enter''" and x = "Some True"
       and s = "emptyShortcut\<lparr>key := Some ''Enter'', ctrlKey := Some True\<rparr> :: string ShortcutAction"]
  have h1: "key (emptyShortcut\<lparr>key := Some ''b'', ctrlKey := Some True, metaKey := Some True\<rparr> :: string ShortcutAction) = Some ''b''"
    by simp
  have h2: "toLowerCase winRuntime ''b'' \<notin> set (map fst glyphTable)"
    by (simp add: toLowerCase_examples glyphTable_def)
  have c3: "formatShortcut winRuntime
     (emptyShortcut\<lparr>key := Some ''b'', ctrlKey := Some True, metaKey := Some True\<rparr> :: string ShortcutAction) =
     Inr ''Ctrl+Meta+B''"
    using W [THEN conjunct2, THEN conjunct2, THEN conjunct1, rule_format, OF conjI [OF h1 h2]]
    by (simp add: isMac_winRuntime presentModifiers_def emptyShortcut_def toUpperCase_b)
  note c4 = W [THEN conjunct2, THEN conjunct2, THEN conjunct2, THEN conjunct1, rule_format,
      OF isMac_winRuntime]
  note c5 = M [THEN conjunct2, THEN conjunct2, THEN conjunct2, THEN conjunct2, rule_format,
      OF isMac_macRuntime]
  have c6: "formatShortcut macRuntime
     (emptyShortcut\<lparr>key := Some ''Enter'', ctrlKey := Some True\<rparr>\<lparr>metaKey := Some True\<rparr> :: string ShortcutAction) =
     Inr (glyphCommand @ glyphEnter)"
    using M [THEN conjunct2, THEN conjunct1, rule_format, OF isMac_macRuntime] c5 by simp
  show ?thesis
    by (rule conjI [OF h1 conjI [OF h2 conjI [OF c3 conjI [OF isMac_winRuntime
          conjI [OF c4 conjI [OF isMac_macRuntime conjI [OF c5 c6]]]]]]])
qed

section \<open>Purity\<close>

text \<open>
  Claim C8. The canonical key and the display label are functions of the modifier
  flags and the primary key of the binding: two bindings that agree on these, whatever
  their handlers and descriptions, have the same canonical key and the same label.
  Neither function has the state of the manager among its arguments, as neither body
  reads a field of the manager; the host, and with it the platform descriptor that
  \<open>formatShortcut\<close> reads, is the same for both calls.
\<close>

theorem key_and_label_depend_on_combination_only:
  fixes s s' :: "'h ShortcutAction"
  assumes "ctrlKey s = ctrlKey s'" and "altKey s = altKey s'" and "shiftKey s = shiftKey s'"
    and "metaKey s = metaKey s'" and "key s = key s'"
  shows "getShortcutKey rt s = getShortcutKey rt s' \<and> formatShortcut rt s = formatShortcut rt s'"
  using assms by (intro conjI getShortcutKey_cong formatShortcut_cong)

text \<open>The theorem at two different bindings for control and \<open>s\<close>.\<close>

theorem key_and_label_depend_on_combination_only_witness:
  "ctrlKey (saveBinding ''H1'') = ctrlKey (saveBinding ''H2''\<lparr>description := Some ''Save''\<rparr>) \<and>
   altKey (saveBinding ''H1'') = altKey (saveBinding ''H2''\<lparr>description := Some ''Save''\<rparr>) \<and>
   shiftKey (saveBinding ''H1'') = shiftKey (saveBinding ''H2''\<lparr>description := Some ''Save''\<rparr>) \<and>
   metaKey (saveBinding ''H1'') = metaKey (saveBinding ''H2''\<lparr>description := Some ''Save''\<rparr>) \<and>
   key (saveBinding ''H1'') = key (saveBinding ''H2''\<lparr>description := Some ''Save''\<rparr>) \<and>
   saveBinding ''H1'' \<noteq> saveBinding ''H2''\<lparr>description := Some ''Save''\<rparr> \<and>
   getShortcutKey winRuntime (saveBinding ''H1'') =
     getShortcutKey winRuntime (saveBinding ''H2''\<lparr>description := Some ''Save''\<rparr>) \<and>
   formatShortcut winRuntime (saveBinding ''H1'') =
     formatShortcut winRuntime (saveBinding ''H2''\<lparr>description := Some ''Save''\<rparr>)"
proof -
  have h1: "ctrlKey (saveBinding ''H1'') = ctrlKey (saveBinding ''H2''\<lparr>description := Some ''Save''\<rparr>)"
    and h2: "altKey (saveBinding ''H1'') = altKey (saveBinding ''H2''\<lparr>description := Some ''Save''\<rparr>)"
    and h3: "shiftKey (saveBinding ''H1'') = shiftKey (saveBinding ''H2''\<lparr>description := Some ''Save''\<rparr>)"
    and h4: "metaKey (saveBinding ''H1'') = metaKey (saveBinding ''H2''\<lparr>description := Some ''Save''\<rparr>)"
    and h5: "key (saveBinding ''H1'') = key (saveBinding ''H2''\<lparr>description := Some ''Save''\<rparr>)"
    by (simp_all add: saveBinding_def)
  have d: "saveBinding ''H1'' \<noteq> saveBinding ''H2''\<lparr>description := Some ''Save''\<rparr>"
    by (simp add: saveBinding_def emptyShortcut_def)
  note T = key_and_label_depend_on_combination_only [OF h1 h2 h3 h4 h5, of winRuntime]
  show ?thesis
    by (rule conjI [OF h1 conjI [OF h2 conjI [OF h3 conjI [OF h4 conjI [OF h5 conjI [OF d T]]]]]])
qed

section \<open>Registration without a primary key\<close>

text \<open>
  Claim C9. A binding whose primary key is missing (absent, or the empty string, which
  \<open>getShortcutKey\<close> treats alike) is accepted by \<open>register\<close>: its canonical key is the
  modifier prefix alone, the names of the present modifiers joined by the separator
  with no key part, and the binding is stored under it. \<open>register\<close> has no failure:
  it returns the state with the one entry set.
\<close>

theorem register_missing_key:
  assumes "key s = None \<or> key s = Some []"
  shows "getShortcutKey rt s = modifierPrefix s \<and>
         register rt s m = m\<lparr>shortcuts := AList.update (modifierPrefix s) s (shortcuts m)\<rparr> \<and>
         map_of (shortcuts (register rt s m)) (modifierPrefix s) = Some s"
proof -
  from assms have k: "getShortcutKey rt s = modifierPrefix s"
    by (auto simp add: getShortcutKey_parts modifierPrefix_def)
  then show ?thesis
    by (simp add: map_of_register) (simp add: register_def)
qed

text \<open>The theorem at the binding \<open>{ctrlKey: true, shiftKey: true}\<close> with a handler.\<close>

theorem register_missing_key_witness:
  "(key (emptyShortcut\<lparr>ctrlKey := Some True, shiftKey := Some True, action := Some ''H1''\<rparr>) = None \<or>
    key (emptyShortcut\<lparr>ctrlKey := Some True, shiftKey := Some True, action := Some ''H1''\<rparr>) = Some []) \<and>
   modifierPrefix (emptyShortcut\<lparr>ctrlKey := Some True, shiftKey := Some True, action := Some ''H1''\<rparr>) = ''ctrl+shift'' \<and>
   getShortcutKey winRuntime (emptyShortcut\<lparr>ctrlKey := Some True, shiftKey := Some True, action := Some ''H1''\<rparr>) = ''ctrl+shift'' \<and>
   shortcuts (register winRuntime (emptyShortcut\<lparr>ctrlKey := Some True, shiftKey := Some True, action := Some ''H1''\<rparr>) (newManager [])) =
     [(''ctrl+shift'', emptyShortcut\<lparr>ctrlKey := Some True, shiftKey := Some True, action := Some ''H1''\<rparr>)]"
proof -
  have h: "key (emptyShortcut\<lparr>ctrlKey := Some True, shiftKey := Some True, action := Some ''H1''\<rparr>) = None \<or>
    key (emptyShortcut\<lparr>ctrlKey := Some True, shiftKey := Some True, action := Some ''H1''\<rparr>) = Some []"
    by (simp add: emptyShortcut_def)
  have p: "modifierPrefix (emptyShortcut\<lparr>ctrlKey := Some True, shiftKey := Some True, action := Some ''H1''\<rparr>) = ''ctrl+shift''"
    by (simp add: modifierPrefix_def presentModifiers_def emptyShortcut_def)
  note T = register_missing_key [OF h, of winRuntime "newManager []"]
  from T p have g: "getShortcutKey winRuntime (emptyShortcut\<lparr>ctrlKey := Some True, shiftKey := Some True, action := Some ''H1''\<rparr>) = ''ctrl+shift''"
    by simp
  from T p have r: "shortcuts (register winRuntime (emptyShortcut\<lparr>ctrlKey := Some True, shiftKey := Some True, action := Some ''H1''\<rparr>) (newManager [])) =
     [(''ctrl+shift'', emptyShortcut\<lparr>ctrlKey := Some True, shiftKey := Some True, action := Some ''H1''\<rparr>)]"
    by (simp add: newManager_def)
  show ?thesis by (rule conjI [OF h conjI [OF p conjI [OF g r]]])
qed

section \<open>Collisions of canonical keys\<close>

text \<open>
  Claim C10. The canonical key is not injective on the combination: the binding with
  \<open>altKey\<close> and key \<open>x\<close> and the binding with no modifier and key \<open>alt+x\<close> differ in their
  modifier flags and in their primary keys and have the same canonical key; so do the
  binding with \<open>ctrlKey\<close> and no key and the binding with no modifier and key \<open>ctrl\<close>.
  Registering the second after the first leaves the state that registering the second
  alone leaves, and the key of the first then finds the second.
\<close>

theorem getShortcutKey_not_injective:
  fixes m :: "'h manager"
  shows
  "getShortcutKey rt (emptyShortcut\<lparr>key := Some ''x'', altKey := Some True, action := a\<rparr> :: 'h ShortcutAction) =
     getShortcutKey rt (emptyShortcut\<lparr>key := Some ''alt+x'', action := a'\<rparr> :: 'h ShortcutAction) \<and>
   combination rt (emptyShortcut\<lparr>key := Some ''x'', altKey := Some True, action := a\<rparr> :: 'h ShortcutAction) \<noteq>
     combination rt (emptyShortcut\<lparr>key := Some ''alt+x'', action := a'\<rparr> :: 'h ShortcutAction) \<and>
   getShortcutKey rt (emptyShortcut\<lparr>ctrlKey := Some True, action := a\<rparr> :: 'h ShortcutAction) =
     getShortcutKey rt (emptyShortcut\<lparr>key := Some ''ctrl'', action := a'\<rparr> :: 'h ShortcutAction) \<and>
   combination rt (emptyShortcut\<lparr>ctrlKey := Some True, action := a\<rparr> :: 'h ShortcutAction) \<noteq>
     combination rt (emptyShortcut\<lparr>key := Some ''ctrl'', action := a'\<rparr> :: 'h ShortcutAction) \<and>
   register rt (emptyShortcut\<lparr>key := Some ''alt+x'', action := a'\<rparr>)
     (register rt (emptyShortcut\<lparr>key := Some ''x'', altKey := Some True, action := a\<rparr>) m) =
     register rt (emptyShortcut\<lparr>key := Some ''alt+x'', action := a'\<rparr>) m \<and>
   map_of (shortcuts (register rt (emptyShortcut\<lparr>key := Some ''alt+x'', action := a'\<rparr>)
     (register rt (emptyShortcut\<lparr>key := Some ''x'', altKey := Some True, action := a\<rparr>) m)))
       (getShortcutKey rt (emptyShortcut\<lparr>key := Some ''x'', altKey := Some True, action := a\<rparr> :: 'h ShortcutAction)) =
     Some (emptyShortcut\<lparr>key := Some ''alt+x'', action := a'\<rparr>) \<and>
   register rt (emptyShortcut\<lparr>key := Some ''ctrl'', action := a'\<rparr>)
     (register rt (emptyShortcut\<lparr>ctrlKey := Some True, action := a\<rparr>) m) =
     register rt (emptyShortcut\<lparr>key := Some ''ctrl'', action := a'\<rparr>) m"
proof -
  have k1: "getShortcutKey rt (emptyShortcut\<lparr>key := Some ''x'', altKey := Some True, action := a\<rparr> :: 'h ShortcutAction) =
     getShortcutKey rt (emptyShortcut\<lparr>key := Some ''alt+x'', action := a'\<rparr> :: 'h ShortcutAction)"
    by (simp add: getShortcutKey_def emptyShortcut_def toLowerCase_examples)
  have k2: "getShortcutKey rt (emptyShortcut\<lparr>ctrlKey := Some True, action := a\<rparr> :: 'h ShortcutAction) =
     getShortcutKey rt (emptyShortcut\<lparr>key := Some ''ctrl'', action := a'\<rparr> :: 'h ShortcutAction)"
    by (simp add: getShortcutKey_def emptyShortcut_def toLowerCase_examples)
  have d1: "combination rt (emptyShortcut\<lparr>key := Some ''x'', altKey := Some True, action := a\<rparr> :: 'h ShortcutAction) \<noteq>
     combination rt (emptyShortcut\<lparr>key := Some ''alt+x'', action := a'\<rparr> :: 'h ShortcutAction)"
    by (simp add: combination_def presentModifiers_def emptyShortcut_def)
  have d2: "combination rt (emptyShortcut\<lparr>ctrlKey := Some True, action := a\<rparr> :: 'h ShortcutAction) \<noteq>
     combination rt (emptyShortcut\<lparr>key := Some ''ctrl'', action := a'\<rparr> :: 'h ShortcutAction)"
    by (simp add: combination_def presentModifiers_def emptyShortcut_def)
  note r1 = register_twice [OF k1, of m]
  note r2 = register_twice [OF k2, of m]
  have l1: "map_of (shortcuts (register rt (emptyShortcut\<lparr>key := Some ''alt+x'', action := a'\<rparr>)
     (register rt (emptyShortcut\<lparr>key := Some ''x'', altKey := Some True, action := a\<rparr>) m)))
       (getShortcutKey rt (emptyShortcut\<lparr>key := Some ''x'', altKey := Some True, action := a\<rparr> :: 'h ShortcutAction)) =
     Some (emptyShortcut\<lparr>key := Some ''alt+x'', action := a'\<rparr>)"
    by (simp add: k1 map_of_register)
  show ?thesis
    by (rule conjI [OF k1 conjI [OF d1 conjI [OF k2 conjI [OF d2 conjI [OF r1 conjI [OF l1 r2]]]]]])
qed

text \<open>The theorem on a new manager, with two named handlers.\<close>

theorem getShortcutKey_not_injective_witness:
  "getShortcutKey winRuntime
     (emptyShortcut\<lparr>key := Some ''x'', altKey := Some True, action := Some ''H1''\<rparr>) =
   getShortcutKey winRuntime (emptyShortcut\<lparr>key := Some ''alt+x'', action := Some ''H2''\<rparr>) \<and>
   getShortcuts (register winRuntime (emptyShortcut\<lparr>key := Some ''alt+x'', action := Some ''H2''\<rparr>)
     (register winRuntime
        (emptyShortcut\<lparr>key := Some ''x'', altKey := Some True, action := Some ''H1''\<rparr>)
        (newManager []))) =
     [emptyShortcut\<lparr>key := Some ''alt+x'', action := Some ''H2''\<rparr>]"
proof -
  note T = getShortcutKey_not_injective
    [where rt = winRuntime and a = "Some ''H1''" and a' = "Some ''H2''"
       and m = "newManager []"]
  note k = T [THEN conjunct1]
  note r = T [THEN conjunct2, THEN conjunct2, THEN conjunct2, THEN conjunct2, THEN conjunct1]
  have g: "getShortcuts (register winRuntime (emptyShortcut\<lparr>key := Some ''alt+x'', action := Some ''H2''\<rparr>)
     (register winRuntime
        (emptyShortcut\<lparr>key := Some ''x'', altKey := Some True, action := Some ''H1''\<rparr>)
        (newManager []))) =
     [emptyShortcut\<lparr>key := Some ''alt+x'', action := Some ''H2''\<rparr>]"
    unfolding r by (simp add: getShortcuts_def register_def newManager_def)
  show ?thesis by (rule conjI [OF k g])
qed

end
